theory Spec2Isabelle
  imports Main "HOL-Library.Sublist"
begin

section \<open>Excel to ICS converter: the schedule loader and the pattern expander\<close>

text \<open>
  A shallow embedding of \<^verbatim>\<open>script.py\<close>: \<^verbatim>\<open>create_events_from_pattern\<close> (lines 77 to 109) and
  the parts of \<^verbatim>\<open>convert_xlsx_to_ics\<close> that carry logic (header mapping, required columns,
  forward fill, the row loop and the week loop; lines 22 to 66).

  Conventions.
  \<^item> A Python \<^verbatim>\<open>str\<close> is a \<open>string\<close>; each \<open>char\<close> stands for the code point of the
    same number, so the model covers text of code points below 256.
  \<^item> A \<^verbatim>\<open>datetime.date\<close> is its proleptic Gregorian ordinal (\<^verbatim>\<open>date.toordinal()\<close>), an
    \<open>int\<close> between 1 (0001-01-01) and 3652059 (9999-12-31).
  \<^item> An exception is a value of type \<open>error\<close>; a function that can raise returns
    \<open>error + 'a\<close>, with \<open>Inl\<close> for the exception.
  \<^item> The library functions the script calls (\<^verbatim>\<open>str.strip\<close>, \<^verbatim>\<open>str.split\<close>,
    \<^verbatim>\<open>str.splitlines\<close>, \<^verbatim>\<open>str.replace\<close>, \<^verbatim>\<open>datetime.strptime\<close>, \<^verbatim>\<open>Series.ffill\<close>) are
    modelled from their documented behaviour in CPython 3 and pandas.
\<close>

subsection \<open>Exceptions\<close>

datatype error =
    MissingColumns string     \<comment> \<open>the \<^verbatim>\<open>ValueError\<close> of line 40, with its message\<close>
  | UnpackMismatch nat        \<comment> \<open>the \<^verbatim>\<open>ValueError\<close> of the tuple assignment of line 86: the
                                  number of values found instead of 2\<close>
  | TimeDataMismatch string   \<comment> \<open>the \<^verbatim>\<open>ValueError\<close> of \<^verbatim>\<open>strptime\<close>: the text that does not
                                  match the format\<close>
  | DateOverflow              \<comment> \<open>the \<^verbatim>\<open>OverflowError\<close> of \<^verbatim>\<open>date + timedelta\<close> out of range\<close>


subsection \<open>Strings\<close>

text \<open>\<^verbatim>\<open>str.isspace\<close> on one character, for code points below 256: the characters that
  \<^verbatim>\<open>str.strip()\<close> removes and that the regular expression \<^verbatim>\<open>\s\<close> matches.\<close>

definition is_space :: "char \<Rightarrow> bool" where
  "is_space c =
     (let n = (of_char c :: nat)
      in (9 \<le> n \<and> n \<le> 13) \<or> (28 \<le> n \<and> n \<le> 32) \<or> n = 133 \<or> n = 160)"

text \<open>\<^verbatim>\<open>s.strip()\<close>: leading and trailing whitespace removed.\<close>

definition py_strip :: "string \<Rightarrow> string" where
  "py_strip s = rev (dropWhile is_space (rev (dropWhile is_space s)))"

text \<open>\<^verbatim>\<open>s.split(sep)\<close> for a separator of one character: the pieces between the
  separators, empty pieces included; always at least one piece.\<close>

fun split_from :: "char \<Rightarrow> string \<Rightarrow> string \<Rightarrow> string list" where
  "split_from sep cur [] = [cur]"
| "split_from sep cur (c # s) =
     (if c = sep then cur # split_from sep [] s else split_from sep (cur @ [c]) s)"

definition py_split :: "char \<Rightarrow> string \<Rightarrow> string list" where
  "py_split sep s = split_from sep [] s"

text \<open>The line boundaries of \<^verbatim>\<open>str.splitlines()\<close> below code point 256: LF, VT, FF, CR,
  FS, GS, RS and NEL; CR followed by LF is one boundary.\<close>

definition is_linebreak :: "char \<Rightarrow> bool" where
  "is_linebreak c =
     (let n = (of_char c :: nat)
      in (10 \<le> n \<and> n \<le> 13) \<or> (28 \<le> n \<and> n \<le> 30) \<or> n = 133)"

fun lines_from :: "string \<Rightarrow> string \<Rightarrow> string list" where
  "lines_from cur [] = (if cur = [] then [] else [cur])"
| "lines_from cur [c] = (if is_linebreak c then [cur] else [cur @ [c]])"
| "lines_from cur (c # d # s) =
     (if of_char c = (13::nat) \<and> of_char d = (10::nat) then cur # lines_from [] s
      else if is_linebreak c then cur # lines_from [] (d # s)
      else lines_from (cur @ [c]) (d # s))"

text \<open>\<^verbatim>\<open>s.splitlines()\<close>: the lines without their boundaries; no empty last line.\<close>

definition splitlines :: "string \<Rightarrow> string list" where
  "splitlines s = lines_from [] s"

text \<open>\<^verbatim>\<open>days.replace("TH", "H")\<close> (line 88): every occurrence of \<^verbatim>\<open>TH\<close>, found from the
  left and without overlap, becomes \<^verbatim>\<open>H\<close>; replaced text is not scanned again.\<close>

fun replace_TH_H :: "string \<Rightarrow> string" where
  "replace_TH_H (a # b # s) =
     (if a = CHR ''T'' \<and> b = CHR ''H'' then CHR ''H'' # replace_TH_H s
      else a # replace_TH_H (b # s))"
| "replace_TH_H s = s"

text \<open>\<^verbatim>\<open>str.upper\<close> and \<^verbatim>\<open>str.lower\<close>. Below code point 128 they exchange \<^verbatim>\<open>a..z\<close> and
  \<^verbatim>\<open>A..Z\<close>. \<^verbatim>\<open>lower\<close> also maps the Latin-1 capitals (192 to 222 but 215) to the letter
  32 above. \<^verbatim>\<open>upper\<close> of a character from 128 to 255 is non-ASCII text or \<^verbatim>\<open>SS\<close>, never a
  key of \<^verbatim>\<open>DAY_MAP\<close>; the model leaves such a character as it is, which is no key either.\<close>

definition upper_char :: "char \<Rightarrow> char" where
  "upper_char c =
     (let n = (of_char c :: nat) in if 97 \<le> n \<and> n \<le> 122 then char_of (n - 32) else c)"

definition lower_char :: "char \<Rightarrow> char" where
  "lower_char c =
     (let n = (of_char c :: nat)
      in if (65 \<le> n \<and> n \<le> 90) \<or> (192 \<le> n \<and> n \<le> 222 \<and> n \<noteq> 215) then char_of (n + 32)
         else c)"

definition py_upper :: "string \<Rightarrow> string" where
  "py_upper s = map upper_char s"

definition py_lower :: "string \<Rightarrow> string" where
  "py_lower s = map lower_char s"


subsection \<open>Day codes (line 13 and lines 88 to 93)\<close>

text \<open>\<^verbatim>\<open>DAY_MAP\<close>, in the order of the source.\<close>

definition DAY_MAP :: "(string \<times> int) list" where
  "DAY_MAP =
     [(''M'', 0), (''T'', 1), (''W'', 2), (''TH'', 3), (''F'', 4), (''S'', 5), (''SU'', 6)]"

text \<open>Lines 90 and 91: an \<^verbatim>\<open>H\<close> stands for \<^verbatim>\<open>TH\<close>, every other character for itself, and
  the upper-cased key is looked up; \<open>None\<close> is Python's \<^verbatim>\<open>None\<close>.\<close>

definition day_weekday :: "char \<Rightarrow> int option" where
  "day_weekday day_char =
     map_of DAY_MAP (py_upper (if day_char = CHR ''H'' then ''TH'' else [day_char]))"

text \<open>Lines 88 to 93 without the events: the weekdays for which the loop of line 89
  reaches line 95, in order.\<close>

fun decode_chars :: "string \<Rightarrow> int list" where
  "decode_chars [] = []"
| "decode_chars (day_char # rest) =
     (case day_weekday day_char of
        None \<Rightarrow> decode_chars rest
      | Some weekday \<Rightarrow> weekday # decode_chars rest)"

definition decode_days :: "string \<Rightarrow> int list" where
  "decode_days days = decode_chars (replace_TH_H days)"



subsection \<open>Dates and times\<close>

type_synonym date = int

text \<open>\<^verbatim>\<open>date.max.toordinal()\<close>, the ordinal of 9999-12-31.\<close>

definition date_max :: date where
  "date_max = 3652059"

text \<open>\<^verbatim>\<open>d + timedelta(days=n)\<close>: \<^verbatim>\<open>OverflowError\<close> outside 0001-01-01 to 9999-12-31.\<close>

definition date_add :: "date \<Rightarrow> int \<Rightarrow> error + date" where
  "date_add d n = (if 1 \<le> d + n \<and> d + n \<le> date_max then Inr (d + n) else Inl DateOverflow)"

text \<open>\<^verbatim>\<open>d.weekday()\<close>: Monday is 0, Sunday is 6.\<close>

definition weekday_of :: "date \<Rightarrow> int" where
  "weekday_of d = (d + 6) mod 7"

text \<open>The ordinal of the date \<^verbatim>\<open>date(y, m, d)\<close>, as CPython's \<^verbatim>\<open>_ymd2ord\<close> computes it, for
  a month from 1 to 12 and a day of that month (other arguments make \<^verbatim>\<open>date\<close> raise
  \<^verbatim>\<open>ValueError\<close>; the theory builds no such date).\<close>

definition is_leap :: "int \<Rightarrow> bool" where
  "is_leap y = (y mod 4 = 0 \<and> (y mod 100 \<noteq> 0 \<or> y mod 400 = 0))"

definition days_before_year :: "int \<Rightarrow> int" where
  "days_before_year y = (y - 1) * 365 + (y - 1) div 4 - (y - 1) div 100 + (y - 1) div 400"

definition days_before_month :: "int \<Rightarrow> nat \<Rightarrow> int" where
  "days_before_month y m =
     [0, 31, 59, 90, 120, 151, 181, 212, 243, 273, 304, 334] ! (m - 1)
       + (if 2 < m \<and> is_leap y then 1 else 0)"

definition ymd2ord :: "int \<Rightarrow> nat \<Rightarrow> int \<Rightarrow> date" where
  "ymd2ord y m d = days_before_year y + days_before_month y m + d"

record pytime =
  hour :: nat
  minute :: nat

record pydatetime =
  dt_date :: date
  dt_time :: pytime

text \<open>\<^verbatim>\<open>datetime.combine(d, t)\<close>.\<close>

definition combine :: "date \<Rightarrow> pytime \<Rightarrow> pydatetime" where
  "combine d t = \<lparr>dt_date = d, dt_time = t\<rparr>"

text \<open>The minutes from the first \<^verbatim>\<open>datetime\<close> to the second (\<^verbatim>\<open>b - a\<close> in minutes), and the
  order \<^verbatim>\<open><\<close> of \<^verbatim>\<open>time\<close> and of \<^verbatim>\<open>datetime\<close> values.\<close>

definition minutes_of :: "pydatetime \<Rightarrow> int" where
  "minutes_of a = dt_date a * 1440 + int (hour (dt_time a)) * 60 + int (minute (dt_time a))"

definition minutes_between :: "pydatetime \<Rightarrow> pydatetime \<Rightarrow> int" where
  "minutes_between a b = minutes_of b - minutes_of a"



subsection \<open>\<^verbatim>\<open>datetime.strptime(s, "%I:%M %p")\<close>\<close>

text \<open>
  CPython matches the text against the regular expression
  \<^verbatim>\<open>(?P<I>1[0-2]|0[1-9]|[1-9]):(?P<M>[0-5]\d|\d)\s+(?P<p>am|pm)\<close>, ignoring case (the AM
  and PM names of the C and English locales), and raises \<^verbatim>\<open>ValueError\<close> when there is no
  match or when text remains after the match. After each group the expression goes on
  with a character that no shorter alternative of the group leaves in place (a colon
  after the hour, whitespace after the minute, a letter after the whitespace), so the
  first alternative that matches is the only one that can lead to a match.
\<close>

definition is_digit :: "char \<Rightarrow> bool" where
  "is_digit c = (let n = (of_char c :: nat) in 48 \<le> n \<and> n \<le> 57)"

definition digit_val :: "char \<Rightarrow> nat" where
  "digit_val c = of_char c - 48"

definition digit_in :: "nat \<Rightarrow> nat \<Rightarrow> char \<Rightarrow> bool" where
  "digit_in lo hi c = (is_digit c \<and> lo \<le> digit_val c \<and> digit_val c \<le> hi)"

fun parse_I :: "string \<Rightarrow> (nat \<times> string) option" where
  "parse_I (a # b # s) =
     (if a = CHR ''1'' \<and> digit_in 0 2 b then Some (10 + digit_val b, s)
      else if a = CHR ''0'' \<and> digit_in 1 9 b then Some (digit_val b, s)
      else if digit_in 1 9 a then Some (digit_val a, b # s)
      else None)"
| "parse_I [a] = (if digit_in 1 9 a then Some (digit_val a, []) else None)"
| "parse_I [] = None"

fun parse_M :: "string \<Rightarrow> (nat \<times> string) option" where
  "parse_M (a # b # s) =
     (if digit_in 0 5 a \<and> is_digit b then Some (10 * digit_val a + digit_val b, s)
      else if is_digit a then Some (digit_val a, b # s)
      else None)"
| "parse_M [a] = (if is_digit a then Some (digit_val a, []) else None)"
| "parse_M [] = None"

text \<open>The hour of the 12-hour clock: 12 AM is hour 0, 12 PM is hour 12.\<close>

definition hour24 :: "nat \<Rightarrow> string \<Rightarrow> nat" where
  "hour24 h ampm =
     (if ampm = ''am'' then (if h = 12 then 0 else h) else (if h \<noteq> 12 then h + 12 else h))"

definition strptime_I_M_p :: "string \<Rightarrow> error + pytime" where
  "strptime_I_M_p s =
     (case parse_I s of
        None \<Rightarrow> Inl (TimeDataMismatch s)
      | Some (h, r1) \<Rightarrow>
          (case r1 of
             [] \<Rightarrow> Inl (TimeDataMismatch s)
           | c # r2 \<Rightarrow>
               if c \<noteq> CHR '':'' then Inl (TimeDataMismatch s)
               else
                 (case parse_M r2 of
                    None \<Rightarrow> Inl (TimeDataMismatch s)
                  | Some (m, r3) \<Rightarrow>
                      (case r3 of
                         [] \<Rightarrow> Inl (TimeDataMismatch s)
                       | w # r4 \<Rightarrow>
                           if \<not> is_space w then Inl (TimeDataMismatch s)
                           else
                             (case dropWhile is_space r4 of
                                p # q # r5 \<Rightarrow>
                                  if py_lower [p, q] \<noteq> ''am'' \<and> py_lower [p, q] \<noteq> ''pm''
                                  then Inl (TimeDataMismatch s)
                                  else if r5 \<noteq> [] then Inl (TimeDataMismatch s)
                                  else Inr \<lparr>hour = hour24 h (py_lower [p, q]), minute = m\<rparr>
                              | _ \<Rightarrow> Inl (TimeDataMismatch s))))))"

subsection \<open>The pattern expander (lines 77 to 109)\<close>

record event =
  summary :: string
  dtstart :: pydatetime
  dtend :: pydatetime
  description :: string

text \<open>Lines 100 to 107: the event of one day, from the parsed times.\<close>

definition make_event :: "string \<Rightarrow> string \<Rightarrow> string \<Rightarrow> date \<Rightarrow> pytime \<Rightarrow> pytime \<Rightarrow> event" where
  "make_event course line location event_date st et =
     \<lparr>summary = course,
      dtstart = combine event_date st,
      dtend = combine event_date et,
      description = ''Meeting Pattern: '' @ line @ '' | '' @ location\<rparr>"

text \<open>Lines 89 to 108: the loop over the characters of \<^verbatim>\<open>temp_days\<close>; \<open>events\<close> is the
  list the loop appends to.\<close>

fun day_loop ::
  "string \<Rightarrow> string \<Rightarrow> string \<Rightarrow> string \<Rightarrow> string \<Rightarrow> date \<Rightarrow> date \<Rightarrow>
   event list \<Rightarrow> string \<Rightarrow> error + event list" where
  "day_loop course line location start_time_str end_time_str week_start_date
     semester_end_date events [] = Inr events"
| "day_loop course line location start_time_str end_time_str week_start_date
     semester_end_date events (day_char # rest) =
     (case day_weekday day_char of
        None \<Rightarrow>
          day_loop course line location start_time_str end_time_str week_start_date
            semester_end_date events rest
      | Some weekday \<Rightarrow>
          (case date_add week_start_date ((weekday - weekday_of week_start_date) mod 7) of
             Inl e \<Rightarrow> Inl e
           | Inr event_date \<Rightarrow>
               if event_date > semester_end_date then
                 day_loop course line location start_time_str end_time_str week_start_date
                   semester_end_date events rest
               else
                 (case strptime_I_M_p start_time_str of
                    Inl e \<Rightarrow> Inl e
                  | Inr st \<Rightarrow>
                      (case strptime_I_M_p end_time_str of
                         Inl e \<Rightarrow> Inl e
                       | Inr et \<Rightarrow>
                           day_loop course line location start_time_str end_time_str
                             week_start_date semester_end_date
                             (events @ [make_event course line location event_date st et])
                             rest))))"

text \<open>Lines 80 to 108: one line of the pattern text.\<close>

definition process_line ::
  "string \<Rightarrow> date \<Rightarrow> date \<Rightarrow> event list \<Rightarrow> string \<Rightarrow> error + event list" where
  "process_line course week_start_date semester_end_date events line =
     (let parts = map py_strip (py_split (CHR ''|'') line)
      in if length parts < 2 then Inr events
         else
           let days = parts ! 0;
               times = parts ! 1;
               location = (if length parts > 2 then parts ! 2 else [])
           in (case map py_strip (py_split (CHR ''-'') times) of
                 [start_time_str, end_time_str] \<Rightarrow>
                   day_loop course line location start_time_str end_time_str
                     week_start_date semester_end_date events (replace_TH_H days)
               | ts \<Rightarrow> Inl (UnpackMismatch (length ts))))"

text \<open>Line 79: the loop over the lines.\<close>

fun line_loop ::
  "string \<Rightarrow> date \<Rightarrow> date \<Rightarrow> event list \<Rightarrow> string list \<Rightarrow> error + event list" where
  "line_loop course week_start_date semester_end_date events [] = Inr events"
| "line_loop course week_start_date semester_end_date events (line # rest) =
     (case process_line course week_start_date semester_end_date events line of
        Inl e \<Rightarrow> Inl e
      | Inr events' \<Rightarrow> line_loop course week_start_date semester_end_date events' rest)"

definition create_events_from_pattern ::
  "string \<Rightarrow> string \<Rightarrow> date \<Rightarrow> date \<Rightarrow> error + event list" where
  "create_events_from_pattern course pattern_text week_start_date semester_end_date =
     line_loop course week_start_date semester_end_date [] (splitlines pattern_text)"

subsection \<open>The week loop of a row (lines 60 to 66)\<close>

text \<open>\<open>cal\<close> is the list of the components added to the calendar so far.\<close>

function week_loop ::
  "string \<Rightarrow> string \<Rightarrow> date \<Rightarrow> date \<Rightarrow> event list \<Rightarrow> error + event list" where
  "week_loop course pattern_text week_start end_dt cal =
     (if week_start \<le> end_dt then
        (case create_events_from_pattern course pattern_text week_start end_dt of
           Inl e \<Rightarrow> Inl e
         | Inr events \<Rightarrow>
             (case date_add week_start 7 of
                Inl e \<Rightarrow> Inl e
              | Inr week_start' \<Rightarrow>
                  week_loop course pattern_text week_start' end_dt (cal @ events)))
      else Inr cal)"
  by pat_completeness auto
termination
  by (relation "measure (\<lambda>(course, pattern_text, week_start, end_dt, cal).
        nat (end_dt + 1 - week_start))")
     (auto simp: date_add_def split: if_splits)

declare week_loop.simps [simp del]

subsection \<open>The schedule table loader (lines 19 to 58)\<close>











text \<open>\<^verbatim>\<open>Series.ffill()\<close>: a missing value (\<open>None\<close>) takes the last value that is not
  missing before it; missing values before the first value stay missing.\<close>

fun ffill_from :: "'a option \<Rightarrow> 'a option list \<Rightarrow> 'a option list" where
  "ffill_from last_valid [] = []"
| "ffill_from last_valid (None # xs) = last_valid # ffill_from last_valid xs"
| "ffill_from last_valid (Some v # xs) = Some v # ffill_from (Some v) xs"

definition ffill :: "'a option list \<Rightarrow> 'a option list" where
  "ffill xs = ffill_from None xs"

text \<open>
  A cell of the course or pattern column is \<open>None\<close> when it is missing (NaN) and
  \<open>Some s\<close> when \<^verbatim>\<open>str\<close> of its value is \<open>s\<close>. A cell of a date column is missing
  (\<^verbatim>\<open>pd.isna\<close> holds), or a value that \<^verbatim>\<open>pd.to_datetime(v).date()\<close> turns into a date, or
  a value for which that call raises \<^verbatim>\<open>ValueError\<close> or \<^verbatim>\<open>TypeError\<close>.
\<close>

datatype date_cell = NaT | DateValue date | NotADate

record schedule_row =
  course_cell :: "string option"
  pattern_cell :: "string option"
  start_cell :: date_cell
  end_cell :: date_cell

text \<open>\<^verbatim>\<open>str(v)\<close> of a cell: \<^verbatim>\<open>nan\<close> for a missing one.\<close>

definition py_str :: "string option \<Rightarrow> string" where
  "py_str v = (case v of None \<Rightarrow> ''nan'' | Some s \<Rightarrow> s)"

text \<open>Line 42: the course column is replaced by its forward fill.\<close>

definition ffill_course :: "schedule_row list \<Rightarrow> schedule_row list" where
  "ffill_course rows =
     map (\<lambda>(r, c). r\<lparr>course_cell := c\<rparr>) (zip rows (ffill (map course_cell rows)))"

text \<open>Lines 46 to 66: one row. Line 51 tests \<^verbatim>\<open>pd.isna\<close> of the two dates;
  \<^verbatim>\<open>pattern_text\<close> is a \<^verbatim>\<open>str\<close> there, never missing.\<close>

definition convert_row :: "event list \<Rightarrow> schedule_row \<Rightarrow> error + event list" where
  "convert_row cal r =
     (let course = py_str (course_cell r);
          pattern_text = py_str (pattern_cell r)
      in if start_cell r = NaT \<or> end_cell r = NaT then Inr cal
         else
           (case (start_cell r, end_cell r) of
              (DateValue start_dt, DateValue end_dt) \<Rightarrow>
                week_loop course pattern_text start_dt end_dt cal
            | _ \<Rightarrow> Inr cal))"



section \<open>Properties\<close>

subsection \<open>Characters and day codes\<close>


lemma char_eq_code: "(c = d) = (of_char c = (of_char d :: nat))"
  by simp

lemma of_char_upper_char:
  "(of_char (upper_char c) :: nat) =
     (if 97 \<le> (of_char c :: nat) \<and> (of_char c :: nat) \<le> 122 then of_char c - 32 else of_char c)"
proof -
  have "(of_char c :: nat) < 256" by simp
  then have "((of_char c :: nat) - 32) mod 256 = of_char c - 32"
    by (intro mod_less) arith
  then show ?thesis
    by (simp add: upper_char_def Let_def)
qed

lemma map_of_DAY_MAP_single:
  "map_of DAY_MAP [d] =
     (let n = (of_char d :: nat)
      in if n = 77 then Some 0 else if n = 84 then Some 1 else if n = 87 then Some 2
         else if n = 70 then Some 4 else if n = 83 then Some 5 else None)"
  by (simp add: DAY_MAP_def char_eq_code [of d] Let_def)


lemma day_weekday_H: "day_weekday (CHR ''H'') = Some 3"
  by (simp add: day_weekday_def DAY_MAP_def py_upper_def upper_char_def)

lemma day_weekday_code:
  "day_weekday c =
     (let n = (of_char c :: nat)
      in if n = 72 then Some 3
         else if n = 77 \<or> n = 109 then Some 0
         else if n = 84 \<or> n = 116 then Some 1
         else if n = 87 \<or> n = 119 then Some 2
         else if n = 70 \<or> n = 102 then Some 4
         else if n = 83 \<or> n = 115 then Some 5
         else None)"
proof (cases "c = CHR ''H''")
  case True
  then show ?thesis
    by (simp add: day_weekday_H)
next
  case False
  define n where "n = (of_char c :: nat)"
  from False have n: "n \<noteq> 72"
    by (simp add: char_eq_code n_def)
  define m where "m = (of_char (upper_char c) :: nat)"
  have m: "m = (if 97 \<le> n \<and> n \<le> 122 then n - 32 else n)"
    by (simp add: m_def n_def of_char_upper_char)
  have "day_weekday c = map_of DAY_MAP [upper_char c]"
    using False by (simp add: day_weekday_def py_upper_def)
  also have "\<dots> =
     (if m = 77 then Some 0 else if m = 84 then Some 1 else if m = 87 then Some 2
         else if m = 70 then Some 4 else if m = 83 then Some 5 else None)"
    by (simp add: map_of_DAY_MAP_single m_def Let_def)
  also have "\<dots> = 
     (if n = 72 then Some 3
         else if n = 77 \<or> n = 109 then Some 0
         else if n = 84 \<or> n = 116 then Some 1
         else if n = 87 \<or> n = 119 then Some 2
         else if n = 70 \<or> n = 102 then Some 4
         else if n = 83 \<or> n = 115 then Some 5
         else None)"
  proof (cases "97 \<le> n \<and> n \<le> 122")
    case True
    then have "m = n - 32" "32 \<le> n" using m by simp_all
    then have "\<And>k. (m = k) = (n = k + 32)" by arith
    then show ?thesis using True by simp
  next
    case False
    with m have "m = n" by simp
    then show ?thesis using False n by auto
  qed
  finally show ?thesis by (simp add: n_def Let_def)
qed



lemma replace_TH_H_Cons_not_T:
  "c \<noteq> CHR ''T'' \<Longrightarrow> replace_TH_H (c # s) = c # replace_TH_H s"
  by (cases s) simp_all



lemma replace_TH_H_split_H:
  "xs = [] \<or> last xs \<noteq> CHR ''T'' \<Longrightarrow>
   replace_TH_H (xs @ CHR ''H'' # ys) = replace_TH_H xs @ CHR ''H'' # replace_TH_H ys"
proof (induction xs rule: replace_TH_H.induct)
  case (1 a b s)
  then show ?case by (auto split: if_splits)
qed (simp_all add: replace_TH_H_Cons_not_T)


lemma decode_chars_append: "decode_chars (xs @ ys) = decode_chars xs @ decode_chars ys"
  by (induction xs) (simp_all split: option.split)


lemma day_weekday_letters:
  "day_weekday (CHR ''M'') = Some 0" "day_weekday (CHR ''T'') = Some 1"
  "day_weekday (CHR ''W'') = Some 2" "day_weekday (CHR ''F'') = Some 4"
  "day_weekday (CHR ''S'') = Some 5"
  by (simp_all add: day_weekday_code)






text \<open>
  Claim C9. An \<^verbatim>\<open>H\<close> that does not follow a \<^verbatim>\<open>T\<close> is decoded as Thursday, between the
  weekdays of the text before it and of the text after it.
\<close>

theorem lone_H_is_thursday:
  "xs = [] \<or> last xs \<noteq> CHR ''T'' \<Longrightarrow>
   decode_days (xs @ CHR ''H'' # ys) = decode_days xs @ 3 # decode_days ys"
  by (simp add: decode_days_def replace_TH_H_split_H decode_chars_append day_weekday_H)

theorem lone_H_is_thursday_witness:
  "decode_days ''H'' = [3] \<and> decode_days ''MHW'' = [0, 3, 2]"
proof -
  have "decode_days ''H'' = [3]"
    using lone_H_is_thursday [of "[]" "[]"] by (simp add: decode_days_def)
  moreover have "decode_days ''MHW'' = [0, 3, 2]"
    using lone_H_is_thursday [of "''M''" "''W''"]
    by (simp add: decode_days_def day_weekday_letters)
  ultimately show ?thesis by simp
qed

subsection \<open>The expander: days, lines and errors\<close>



lemma date_add_in_week:
  assumes "1 \<le> ws" "ws + 6 \<le> date_max"
  shows "date_add ws ((w - weekday_of ws) mod 7) = Inr (ws + (w - weekday_of ws) mod 7)"
proof -
  have "1 \<le> ws + (w - weekday_of ws) mod 7 \<and> ws + (w - weekday_of ws) mod 7 \<le> date_max"
    using assms pos_mod_sign [of 7 "w - weekday_of ws"] pos_mod_bound [of 7 "w - weekday_of ws"]
    by arith
  then show ?thesis
    by (simp add: date_add_def)
qed


lemma day_loop_parsed:
  assumes "1 \<le> ws" "ws + 6 \<le> date_max"
    and "strptime_I_M_p s = Inr st" "strptime_I_M_p e = Inr et"
  shows "day_loop course line location s e ws end_d events chars =
     Inr (events @
       map (\<lambda>w. make_event course line location (ws + (w - weekday_of ws) mod 7) st et)
         (filter (\<lambda>w. ws + (w - weekday_of ws) mod 7 \<le> end_d) (decode_chars chars)))"
  using assms
  by (induction chars arbitrary: events)
     (simp_all add: date_add_in_week split: option.split)





lemma process_line_short:
  "length (py_split (CHR ''|'') line) < 2 \<Longrightarrow>
   process_line course ws end_d events line = Inr events"
  by (simp add: process_line_def)

lemma process_line_fields:
  assumes "map py_strip (py_split (CHR ''|'') line) = days # tms # extra"
  shows "process_line course ws end_d events line =
     (case map py_strip (py_split (CHR ''-'') tms) of
        [s, e] \<Rightarrow>
          day_loop course line (case extra of [] \<Rightarrow> [] | loc # _ \<Rightarrow> loc) s e ws end_d events
            (replace_TH_H days)
      | ts \<Rightarrow> Inl (UnpackMismatch (length ts)))"
proof -
  have "length (map py_strip (py_split (CHR ''|'') line)) = Suc (Suc (length extra))"
    by (simp add: assms)
  then have "\<not> length (py_split (CHR ''|'') line) < 2"
    by simp
  then show ?thesis
    using assms by (cases extra) (simp_all add: process_line_def Let_def cong: list.case_cong)
qed




lemma line_loop_append:
  "line_loop course ws end_d events (bs @ as) =
     (case line_loop course ws end_d events bs of
        Inl err \<Rightarrow> Inl err
      | Inr events' \<Rightarrow> line_loop course ws end_d events' as)"
  by (induction bs arbitrary: events) (simp_all split: sum.split)

lemma line_loop_skip:
  assumes "\<And>evs. process_line course ws end_d evs line = Inr evs"
  shows "line_loop course ws end_d events (bs @ line # as) =
     line_loop course ws end_d events (bs @ as)"
  by (simp add: line_loop_append [of _ _ _ _ bs] assms split: sum.split)



text \<open>
  Claim C6. A line with fewer than two pipe-delimited fields leaves the list of events
  as it is, and the pattern text gives what its other lines give.
\<close>

theorem short_line_contributes_nothing:
  assumes "splitlines pattern_text = before @ line # after"
    and "length (py_split (CHR ''|'') line) < 2"
  shows "process_line course week_start_date semester_end_date events line = Inr events \<and>
     create_events_from_pattern course pattern_text week_start_date semester_end_date =
       line_loop course week_start_date semester_end_date [] (before @ after)"
  using assms
  by (simp add: create_events_from_pattern_def process_line_short line_loop_skip)

theorem short_line_contributes_nothing_witness:
  "create_events_from_pattern ''CS'' (''MWF'' @ [CHR 0x0A] @ ''TTH|9:00 AM-9:50 AM'')
     (ymd2ord 2024 1 8) (ymd2ord 2024 1 12) =
   Inr [make_event ''CS'' ''TTH|9:00 AM-9:50 AM'' [] (ymd2ord 2024 1 9)
          \<lparr>hour = 9, minute = 0\<rparr> \<lparr>hour = 9, minute = 50\<rparr>,
        make_event ''CS'' ''TTH|9:00 AM-9:50 AM'' [] (ymd2ord 2024 1 11)
          \<lparr>hour = 9, minute = 0\<rparr> \<lparr>hour = 9, minute = 50\<rparr>]"
proof -
  have l: "splitlines (''MWF'' @ [CHR 0x0A] @ ''TTH|9:00 AM-9:50 AM'') =
      [] @ ''MWF'' # [''TTH|9:00 AM-9:50 AM'']"
    by code_simp
  have f: "length (py_split (CHR ''|'') ''MWF'') < 2"
    by code_simp
  have r: "line_loop ''CS'' (ymd2ord 2024 1 8) (ymd2ord 2024 1 12) [] ([] @ [''TTH|9:00 AM-9:50 AM'']) =
    Inr [make_event ''CS'' ''TTH|9:00 AM-9:50 AM'' [] (ymd2ord 2024 1 9)
          \<lparr>hour = 9, minute = 0\<rparr> \<lparr>hour = 9, minute = 50\<rparr>,
        make_event ''CS'' ''TTH|9:00 AM-9:50 AM'' [] (ymd2ord 2024 1 11)
          \<lparr>hour = 9, minute = 0\<rparr> \<lparr>hour = 9, minute = 50\<rparr>]"
    by code_simp
  show ?thesis
    using short_line_contributes_nothing [OF l f, of "''CS''" "ymd2ord 2024 1 8" "ymd2ord 2024 1 12" "[]"] r
    by simp
qed

subsection \<open>The expander: one window of seven days\<close>



lemma process_line_parsed:
  assumes "1 \<le> ws" "ws + 6 \<le> date_max"
    and "map py_strip (py_split (CHR ''|'') line) = days # tms # extra"
    and "map py_strip (py_split (CHR ''-'') tms) = [s, e]"
    and "strptime_I_M_p s = Inr st" "strptime_I_M_p e = Inr et"
  shows "process_line course ws end_d events line =
     Inr (events @
       map (\<lambda>w. make_event course line (case extra of [] \<Rightarrow> [] | loc # _ \<Rightarrow> loc)
                 (ws + (w - weekday_of ws) mod 7) st et)
         (filter (\<lambda>w. ws + (w - weekday_of ws) mod 7 \<le> end_d) (decode_days days)))"
  by (simp add: process_line_fields [OF assms(3)] assms(4) decode_days_def
        day_loop_parsed [OF assms(1,2,5,6)])



subsection \<open>The expander: time fields that do not parse, and the dates of an event\<close>












subsection \<open>The expander: characters without a weekday\<close>





subsection \<open>The loader: required columns\<close>







subsection \<open>The loader: forward fill\<close>


lemma length_ffill_from: "length (ffill_from l xs) = length xs"
  by (induction l xs rule: ffill_from.induct) simp_all

lemma ffill_from_keeps:
  "i < length xs \<Longrightarrow> xs ! i = Some v \<Longrightarrow> ffill_from l xs ! i = Some v"
proof (induction l xs arbitrary: i rule: ffill_from.induct)
  case (1 l)
  then show ?case by simp
next
  case (2 l xs)
  then show ?case by (cases i) simp_all
next
  case (3 l w xs)
  then show ?case by (cases i) simp_all
qed

lemma ffill_from_leading:
  "i < length xs \<Longrightarrow> \<forall>k \<le> i. xs ! k = None \<Longrightarrow> ffill_from l xs ! i = l"
proof (induction l xs arbitrary: i rule: ffill_from.induct)
  case (1 l)
  then show ?case by simp
next
  case (2 l xs)
  show ?case
  proof (cases i)
    case 0
    then show ?thesis by simp
  next
    case (Suc i')
    with "2.prems" have "i' < length xs" "\<forall>k \<le> i'. xs ! k = None"
      by auto
    with "2.IH" Suc show ?thesis by simp
  qed
next
  case (3 l w xs)
  then have "(Some w # xs) ! 0 = None" by blast
  then show ?case by simp
qed

lemma ffill_from_inherits:
  "i < length xs \<Longrightarrow> j < i \<Longrightarrow> xs ! j = Some v \<Longrightarrow> \<forall>k. j < k \<and> k \<le> i \<longrightarrow> xs ! k = None \<Longrightarrow>
   ffill_from l xs ! i = Some v"
proof (induction l xs arbitrary: i j rule: ffill_from.induct)
  case (1 l)
  then show ?case by simp
next
  case (2 l xs)
  from "2.prems" obtain i' j' where ij: "i = Suc i'" "j = Suc j'"
    by (cases i; cases j) auto
  with "2.prems" have "i' < length xs" "j' < i'" "xs ! j' = Some v"
    "\<forall>k. j' < k \<and> k \<le> i' \<longrightarrow> xs ! k = None"
    by auto
  with "2.IH" ij show ?case by simp
next
  case (3 l w xs)
  from "3.prems" obtain i' where i: "i = Suc i'"
    by (cases i) auto
  show ?case
  proof (cases j)
    case 0
    with "3.prems" i have "w = v" "i' < length xs" "\<forall>k \<le> i'. xs ! k = None"
      by auto
    with i show ?thesis by (simp add: ffill_from_leading)
  next
    case (Suc j')
    with "3.prems" i have "i' < length xs" "j' < i'" "xs ! j' = Some v"
      "\<forall>k. j' < k \<and> k \<le> i' \<longrightarrow> xs ! k = None"
      by auto
    with "3.IH" i show ?thesis by simp
  qed
qed

text \<open>
  Claim C8. After line 42 the table has the same rows with the same pattern and date
  cells; a row whose course cell is not missing keeps it, and a row whose course cell is
  missing has the course cell of the nearest row before it whose course cell is not
  missing.
\<close>

theorem forward_fill_course:
  assumes "i < length rows"
  shows "length (ffill_course rows) = length rows \<and>
     pattern_cell (ffill_course rows ! i) = pattern_cell (rows ! i) \<and>
     start_cell (ffill_course rows ! i) = start_cell (rows ! i) \<and>
     end_cell (ffill_course rows ! i) = end_cell (rows ! i) \<and>
     (course_cell (rows ! i) \<noteq> None \<longrightarrow>
        course_cell (ffill_course rows ! i) = course_cell (rows ! i)) \<and>
     (course_cell (rows ! i) = None \<longrightarrow>
        (\<forall>j < i. course_cell (rows ! j) \<noteq> None \<and>
                 (\<forall>k. j < k \<and> k < i \<longrightarrow> course_cell (rows ! k) = None) \<longrightarrow>
           course_cell (ffill_course rows ! i) = course_cell (rows ! j)))"
proof -
  let ?xs = "map course_cell rows"
  have len: "length (ffill ?xs) = length rows"
    by (simp add: ffill_def length_ffill_from)
  have nth: "ffill_course rows ! i = (rows ! i)\<lparr>course_cell := ffill ?xs ! i\<rparr>"
    using assms len by (simp add: ffill_course_def)
  have keep: "ffill ?xs ! i = course_cell (rows ! i)" if "course_cell (rows ! i) \<noteq> None"
  proof -
    from that obtain v where "course_cell (rows ! i) = Some v" by auto
    then show ?thesis
      using assms ffill_from_keeps [of i ?xs v None] by (simp add: ffill_def)
  qed
  have inherit: "ffill ?xs ! i = course_cell (rows ! j)"
    if "course_cell (rows ! i) = None" "j < i" "course_cell (rows ! j) \<noteq> None"
      "\<forall>k. j < k \<and> k < i \<longrightarrow> course_cell (rows ! k) = None" for j
  proof -
    from that obtain v where v: "course_cell (rows ! j) = Some v" by auto
    have "\<forall>k. j < k \<and> k \<le> i \<longrightarrow> ?xs ! k = None"
      using that assms by (auto simp: le_less)
    then have "ffill_from None ?xs ! i = Some v"
      using assms that(2) v by (intro ffill_from_inherits [of i ?xs j]) simp_all
    then show ?thesis
      by (simp add: ffill_def v)
  qed
  have l2: "length (ffill_course rows) = length rows"
    by (simp add: ffill_course_def len)
  show ?thesis
    unfolding nth l2 using keep inherit by auto
qed


theorem forward_fill_course_witness:
  "course_cell
     (ffill_course
        [\<lparr>course_cell = Some ''CS 101'', pattern_cell = None, start_cell = NaT, end_cell = NaT\<rparr>,
         \<lparr>course_cell = None, pattern_cell = None, start_cell = NaT, end_cell = NaT\<rparr>,
         \<lparr>course_cell = None, pattern_cell = None, start_cell = NaT, end_cell = NaT\<rparr>] ! 2) =
   Some ''CS 101''"
proof -
  define rows where "rows =
     [\<lparr>course_cell = Some ''CS 101'', pattern_cell = None, start_cell = NaT, end_cell = NaT\<rparr>,
      \<lparr>course_cell = None, pattern_cell = None, start_cell = NaT, end_cell = NaT\<rparr>,
      \<lparr>course_cell = None, pattern_cell = None, start_cell = NaT, end_cell = NaT\<rparr>]"
  have i: "2 < length rows"
    by (simp add: rows_def)
  have c: "course_cell (rows ! 0) = Some ''CS 101''" "course_cell (rows ! 1) = None"
    "course_cell (rows ! 2) = None"
    by (simp_all add: rows_def)
  have k: "course_cell (rows ! k) = None" if "0 < k \<and> k < 2" for k
  proof -
    from that have "k = 1" by arith
    with c show ?thesis by simp
  qed
  from forward_fill_course [OF i] have
    "course_cell (rows ! 2) = None \<longrightarrow>
       (\<forall>j < 2. course_cell (rows ! j) \<noteq> None \<and>
                (\<forall>k. j < k \<and> k < 2 \<longrightarrow> course_cell (rows ! k) = None) \<longrightarrow>
          course_cell (ffill_course rows ! 2) = course_cell (rows ! j))"
    by blast
  with c(3) have "\<forall>j < 2. course_cell (rows ! j) \<noteq> None \<and>
                (\<forall>k. j < k \<and> k < 2 \<longrightarrow> course_cell (rows ! k) = None) \<longrightarrow>
          course_cell (ffill_course rows ! 2) = course_cell (rows ! j)"
    by blast
  moreover have "(0::nat) < 2" by simp
  ultimately have "course_cell (rows ! 0) \<noteq> None \<and>
                (\<forall>k. 0 < k \<and> k < 2 \<longrightarrow> course_cell (rows ! k) = None) \<longrightarrow>
          course_cell (ffill_course rows ! 2) = course_cell (rows ! 0)"
    by blast
  with k c(1) have "course_cell (ffill_course rows ! 2) = Some ''CS 101''"
    by simp
  then show ?thesis
    unfolding rows_def .
qed

subsection \<open>The week loop of a row\<close>


lemma mwf_week:
  assumes "1 \<le> ws" "ws + 6 \<le> date_max"
  shows "create_events_from_pattern course ''MWF|9:00 AM-9:50 AM|Room 1'' ws end_d =
     Inr (map (\<lambda>w. make_event course ''MWF|9:00 AM-9:50 AM|Room 1'' ''Room 1''
                 (ws + (w - weekday_of ws) mod 7)
                 \<lparr>hour = 9, minute = 0\<rparr> \<lparr>hour = 9, minute = 50\<rparr>)
           (filter (\<lambda>w. ws + (w - weekday_of ws) mod 7 \<le> end_d) [0, 2, 4]))"
proof -
  have l: "splitlines ''MWF|9:00 AM-9:50 AM|Room 1'' = [''MWF|9:00 AM-9:50 AM|Room 1'']"
    by code_simp
  have f: "map py_strip (py_split (CHR ''|'') ''MWF|9:00 AM-9:50 AM|Room 1'') =
      ''MWF'' # ''9:00 AM-9:50 AM'' # [''Room 1'']"
    by code_simp
  have t: "map py_strip (py_split (CHR ''-'') ''9:00 AM-9:50 AM'') = [''9:00 AM'', ''9:50 AM'']"
    by code_simp
  have p: "strptime_I_M_p ''9:00 AM'' = Inr \<lparr>hour = 9, minute = 0\<rparr>"
    "strptime_I_M_p ''9:50 AM'' = Inr \<lparr>hour = 9, minute = 50\<rparr>"
    by code_simp+
  have d: "decode_days ''MWF'' = [0, 2, 4]"
    by code_simp
  show ?thesis
    unfolding create_events_from_pattern_def l
    by (simp add: process_line_parsed [OF assms f t p] d)
qed

lemma week_loop_step:
  assumes "week_start \<le> end_dt"
    and "create_events_from_pattern course pattern_text week_start end_dt = Inr events"
    and "1 \<le> week_start" "week_start + 7 \<le> date_max"
  shows "week_loop course pattern_text week_start end_dt cal =
     week_loop course pattern_text (week_start + 7) end_dt (cal @ events)"
  using assms by (subst week_loop.simps) (simp add: date_add_def)

lemma week_loop_done:
  "\<not> week_start \<le> end_dt \<Longrightarrow> week_loop course pattern_text week_start end_dt cal = Inr cal"
  by (subst week_loop.simps) simp

text \<open>
  Claim C3. The row with the pattern \<^verbatim>\<open>MWF|9:00 AM-9:50 AM|Room 1\<close> from 2024-01-08 to
  2024-01-19 gives exactly six events, on January 8, 10, 12, 15, 17 and 19 (Monday,
  Wednesday, Friday of the two weeks), each ending 50 minutes after it starts, none
  after 2024-01-19, each with the course of the row as its summary.
\<close>

theorem mwf_two_weeks:
  "\<exists>events.
     convert_row []
       \<lparr>course_cell = Some course,
        pattern_cell = Some ''MWF|9:00 AM-9:50 AM|Room 1'',
        start_cell = DateValue (ymd2ord 2024 1 8),
        end_cell = DateValue (ymd2ord 2024 1 19)\<rparr> = Inr events \<and>
     length events = 6 \<and>
     map (\<lambda>ev. dt_date (dtstart ev)) events =
       [ymd2ord 2024 1 8, ymd2ord 2024 1 10, ymd2ord 2024 1 12,
        ymd2ord 2024 1 15, ymd2ord 2024 1 17, ymd2ord 2024 1 19] \<and>
     map (\<lambda>ev. weekday_of (dt_date (dtstart ev))) events = [0, 2, 4, 0, 2, 4] \<and>
     map (\<lambda>ev. minutes_between (dtstart ev) (dtend ev)) events = [50, 50, 50, 50, 50, 50] \<and>
     filter (\<lambda>ev. ymd2ord 2024 1 19 < dt_date (dtstart ev)) events = [] \<and>
     map summary events = replicate 6 course"
proof -
  let ?ev = "\<lambda>d. make_event course ''MWF|9:00 AM-9:50 AM|Room 1'' ''Room 1'' d
     \<lparr>hour = 9, minute = 0\<rparr> \<lparr>hour = 9, minute = 50\<rparr>"
  have y: "ymd2ord 2024 1 8 = 738893" "ymd2ord 2024 1 10 = 738895" "ymd2ord 2024 1 12 = 738897"
    "ymd2ord 2024 1 15 = 738900" "ymd2ord 2024 1 17 = 738902" "ymd2ord 2024 1 19 = 738904"
    by code_simp+
  have w1: "create_events_from_pattern course ''MWF|9:00 AM-9:50 AM|Room 1'' 738893 738904 =
      Inr [?ev 738893, ?ev 738895, ?ev 738897]"
    by (subst mwf_week) (simp_all add: date_max_def weekday_of_def)
  have w2: "create_events_from_pattern course ''MWF|9:00 AM-9:50 AM|Room 1'' 738900 738904 =
      Inr [?ev 738900, ?ev 738902, ?ev 738904]"
    by (subst mwf_week) (simp_all add: date_max_def weekday_of_def)
  have wl: "week_loop course ''MWF|9:00 AM-9:50 AM|Room 1'' 738893 738904 [] =
      Inr [?ev 738893, ?ev 738895, ?ev 738897, ?ev 738900, ?ev 738902, ?ev 738904]"
  proof -
    have "week_loop course ''MWF|9:00 AM-9:50 AM|Room 1'' 738893 738904 [] =
        week_loop course ''MWF|9:00 AM-9:50 AM|Room 1'' (738893 + 7) 738904
          ([] @ [?ev 738893, ?ev 738895, ?ev 738897])"
      by (rule week_loop_step [OF _ w1]) (simp_all add: date_max_def)
    also have "\<dots> = week_loop course ''MWF|9:00 AM-9:50 AM|Room 1'' (738900 + 7) 738904
          ([?ev 738893, ?ev 738895, ?ev 738897] @ [?ev 738900, ?ev 738902, ?ev 738904])"
      using week_loop_step [OF _ w2, of "[?ev 738893, ?ev 738895, ?ev 738897]"]
      by (simp add: date_max_def)
    also have "\<dots> = Inr ([?ev 738893, ?ev 738895, ?ev 738897] @
        [?ev 738900, ?ev 738902, ?ev 738904])"
      by (rule week_loop_done) simp
    finally show ?thesis by simp
  qed
  have c: "convert_row []
       \<lparr>course_cell = Some course,
        pattern_cell = Some ''MWF|9:00 AM-9:50 AM|Room 1'',
        start_cell = DateValue 738893,
        end_cell = DateValue 738904\<rparr> =
      Inr [?ev 738893, ?ev 738895, ?ev 738897, ?ev 738900, ?ev 738902, ?ev 738904]"
    by (simp add: convert_row_def py_str_def Let_def wl)
  have r: "replicate 6 course = [course, course, course, course, course, course]"
    by (simp add: eval_nat_numeral)
  show ?thesis
    unfolding y
    by (rule exI [of _ "[?ev 738893, ?ev 738895, ?ev 738897, ?ev 738900, ?ev 738902,
          ?ev 738904]"])
       (simp add: c r make_event_def combine_def minutes_between_def minutes_of_def
          weekday_of_def)
qed

end
